theory Spec2Isabelle
  imports Main
begin

section \<open>JavaScript values used by the tag action\<close>

text \<open>
  The action computes with JavaScript numbers and strings.  Every number it handles is
  either \<open>NaN\<close> (what \<open>parseInt\<close> returns on text without a leading digit) or an
  integer, so a number is modelled as \<open>NaN\<close> or a mathematical integer.  JavaScript
  stores the integer as a double: the model is exact for magnitudes up to \<open>2^53\<close>;
  beyond, JavaScript rounds, prints integers from \<open>10^21\<close> on in exponent notation
  and reads more than 308 digits as \<open>Infinity\<close>, which the model leaves out.
  Negative zero is identified with zero (the code cannot tell them apart: \<open>-0 === 0\<close>,
  \<open>-0 < 0\<close> is false and \<open>-0\<close> prints as \<open>0\<close>).  A string is a list of
  8-bit characters.
\<close>

datatype number = NaN | Number int

datatype error = TypeError

text \<open>The operators \<open>===\<close>, \<open><\<close>, \<open>>\<close>, \<open>-\<close> and \<open>+\<close> on numbers: a
  comparison with \<open>NaN\<close> is false, arithmetic with \<open>NaN\<close> is \<open>NaN\<close>.\<close>

fun strictEq :: "number \<Rightarrow> number \<Rightarrow> bool" where
  "strictEq (Number x) (Number y) = (x = y)"
| "strictEq _ _ = False"

fun js_lt :: "number \<Rightarrow> number \<Rightarrow> bool" where
  "js_lt (Number x) (Number y) = (x < y)"
| "js_lt _ _ = False"

fun js_gt :: "number \<Rightarrow> number \<Rightarrow> bool" where
  "js_gt (Number x) (Number y) = (x > y)"
| "js_gt _ _ = False"

fun js_sub :: "number \<Rightarrow> number \<Rightarrow> number" where
  "js_sub (Number x) (Number y) = Number (x - y)"
| "js_sub _ _ = NaN"

fun js_add :: "number \<Rightarrow> number \<Rightarrow> number" where
  "js_add (Number x) (Number y) = Number (x + y)"
| "js_add _ _ = NaN"

subsection \<open>Strings\<close>

definition startsWith :: "string \<Rightarrow> string \<Rightarrow> bool" where
  "startsWith s p = (take (length p) s = p)"

text \<open>\<open>s.substr(start, len)\<close> for non-negative arguments.\<close>

definition substr :: "string \<Rightarrow> nat \<Rightarrow> nat \<Rightarrow> string" where
  "substr s start len = take len (drop start s)"

text \<open>\<open>s.split(sep)\<close> for a one-character separator: the segments between the
  separators, in order; a string without separator is its own single segment.\<close>

fun split :: "char \<Rightarrow> string \<Rightarrow> string list" where
  "split sep [] = [[]]"
| "split sep (c # cs) =
     (if c = sep then [] # split sep cs
      else (case split sep cs of [] \<Rightarrow> [[c]] | p # ps \<Rightarrow> (c # p) # ps))"

text \<open>An array read \<open>xs[i]\<close>: \<open>undefined\<close> (here \<open>None\<close>) out of range.\<close>

definition index :: "'a list \<Rightarrow> nat \<Rightarrow> 'a option" where
  "index xs i = (if i < length xs then Some (xs ! i) else None)"

subsection \<open>parseInt and number formatting\<close>

definition isWhiteSpace :: "char \<Rightarrow> bool" where
  "isWhiteSpace c = (c \<in> set [CHR 0x09, CHR 0x0A, CHR 0x0B, CHR 0x0C, CHR 0x0D, CHR 0x20, CHR 0xA0])"

definition digitVal :: "char \<Rightarrow> nat option" where
  "digitVal c = map_of
     [(CHR ''0'', 0), (CHR ''1'', 1), (CHR ''2'', 2), (CHR ''3'', 3), (CHR ''4'', 4),
      (CHR ''5'', 5), (CHR ''6'', 6), (CHR ''7'', 7), (CHR ''8'', 8), (CHR ''9'', 9),
      (CHR ''a'', 10), (CHR ''b'', 11), (CHR ''c'', 12), (CHR ''d'', 13), (CHR ''e'', 14),
      (CHR ''f'', 15), (CHR ''A'', 10), (CHR ''B'', 11), (CHR ''C'', 12), (CHR ''D'', 13),
      (CHR ''E'', 14), (CHR ''F'', 15)] c"

definition isDigit :: "nat \<Rightarrow> char \<Rightarrow> bool" where
  "isDigit R c = (case digitVal c of None \<Rightarrow> False | Some d \<Rightarrow> d < R)"

definition digitsValue :: "nat \<Rightarrow> string \<Rightarrow> nat" where
  "digitsValue R z = foldl (\<lambda>acc c. acc * R + the (digitVal c)) 0 z"

text \<open>
  \<open>parseInt(s)\<close> without a radix (ECMAScript 19.2.5): skip leading white space, read an
  optional sign, switch to radix 16 after a \<open>0x\<close> or \<open>0X\<close> prefix, take the longest
  prefix of digits and ignore whatever follows; no digit at all gives \<open>NaN\<close>.
\<close>

definition parseInt :: "string \<Rightarrow> number" where
  "parseInt s =
     (let s1 = dropWhile isWhiteSpace s;
          neg = (s1 \<noteq> [] \<and> hd s1 = CHR ''-'');
          s2 = (if s1 \<noteq> [] \<and> (hd s1 = CHR ''+'' \<or> hd s1 = CHR ''-'') then tl s1 else s1);
          hex = (take 2 s2 = ''0x'' \<or> take 2 s2 = ''0X'');
          R = (if hex then 16 else 10);
          s3 = (if hex then drop 2 s2 else s2);
          z = takeWhile (isDigit R) s3
      in if z = [] then NaN
         else Number ((if neg then - 1 else 1) * int (digitsValue R z)))"

text \<open>\<open>parseInt\<close> of an array read: \<open>undefined\<close> is first converted to the string
  \<open>undefined\<close>.\<close>

definition parseIntAt :: "string list \<Rightarrow> nat \<Rightarrow> number" where
  "parseIntAt parts i = (case index parts i of None \<Rightarrow> parseInt ''undefined'' | Some s \<Rightarrow> parseInt s)"

fun digitsOf :: "nat \<Rightarrow> string" where
  "digitsOf n = (if n < 10 then [''0123456789'' ! n]
                 else digitsOf (n div 10) @ [''0123456789'' ! (n mod 10)])"

declare digitsOf.simps [simp del]

text \<open>A number inside a template literal, \<open>`${n}`\<close> (decimal notation, which JavaScript
  uses for integers below \<open>10^21\<close>).\<close>

fun toString :: "number \<Rightarrow> string" where
  "toString NaN = ''NaN''"
| "toString (Number i) = (if i < 0 then CHR ''-'' # digitsOf (nat (- i)) else digitsOf (nat i))"

section \<open>The tag action, update grammar (marker \<open>up\<close>)\<close>

text \<open>A parsed update \<open>{ maj, min }\<close> and a parsed tag \<open>{ year, up, count }\<close>.  The
  service-pack variants of the action name the middle field \<open>sp\<close>.\<close>

record update_id =
  maj :: number
  min' :: number

record tag =
  year :: number
  up :: update_id
  count :: number

text \<open>\<open>parseUpdate\<close>: \<open>null\<close> (here \<open>None\<close>) without the marker; otherwise the first
  segment after the marker and the second segment, each through \<open>parseInt\<close>.  The read
  \<open>parts[0].substr\<close> would throw on an empty array.\<close>

definition parseUpdate :: "string \<Rightarrow> error + update_id option" where
  "parseUpdate u =
     (if \<not> startsWith u ''up'' then Inr None
      else let parts = split CHR ''.'' u in
        (case index parts 0 of
           None \<Rightarrow> Inl TypeError
         | Some p0 \<Rightarrow>
             let mj = parseInt (substr p0 2 (length p0 - 1));
                 mn = (if length parts = 1 then Number 0 else parseIntAt parts 1)
             in Inr (Some \<lparr>maj = mj, min' = mn\<rparr>)))"

text \<open>\<open>parseTag\<close> calls \<open>tag.uplit(".")\<close>.  A string has no method \<open>uplit\<close>, so the
  call throws a \<open>TypeError\<close>, inside the \<open>try\<close> block.\<close>

definition uplit :: "string \<Rightarrow> char \<Rightarrow> error + string list" where
  "uplit s sep = Inl TypeError"

text \<open>The body of the \<open>try\<close> block of \<open>parseTag\<close>.  The argument is a string, so
  of the first test (\<open>undefined\<close>, \<open>null\<close> or length 0) the length remains.\<close>

definition parseTag_try :: "string \<Rightarrow> error + tag option" where
  "parseTag_try t =
     (if length t = 0 then Inr None
      else if \<not> startsWith t ''v'' then Inr None
      else (case uplit t CHR ''.'' of
        Inl e \<Rightarrow> Inl e
      | Inr parts \<Rightarrow>
          (if length parts \<noteq> 3 \<and> length parts \<noteq> 4 then Inr None
           else (let y = parseInt (substr (parts ! 0) 1 (length (parts ! 0) - 1)) in
             (if js_lt y (Number 2000) \<or> js_gt y (Number 3000) then Inr None
              else (case parseUpdate (if length parts = 3 then parts ! 1
                                      else parts ! 1 @ ''.'' @ parts ! 2) of
                 Inl e \<Rightarrow> Inl e
               | Inr None \<Rightarrow> Inr None
               | Inr (Some u) \<Rightarrow>
                   (let c = parseInt (parts ! (length parts - 1)) in
                    (if js_lt c (Number 0) then Inr None
                     else Inr (Some \<lparr>year = y, up = u, count = c\<rparr>)))))))))"

text \<open>\<open>parseTag\<close>: the \<open>try\<close> block, with \<open>catch (error) { return null; }\<close>.\<close>

definition parseTag :: "string \<Rightarrow> error + tag option" where
  "parseTag t = (case parseTag_try t of Inl e \<Rightarrow> Inr None | Inr r \<Rightarrow> Inr r)"

definition compareTags :: "tag \<Rightarrow> tag \<Rightarrow> number" where
  "compareTags a b =
     (if \<not> strictEq (year a) (year b) then js_sub (year a) (year b)
      else if \<not> strictEq (maj (up a)) (maj (up b)) then js_sub (maj (up a)) (maj (up b))
      else if \<not> strictEq (min' (up a)) (min' (up b)) then js_sub (min' (up a)) (min' (up b))
      else if \<not> strictEq (count a) (count b) then js_sub (count a) (count b)
      else Number 0)"

definition formatTag :: "tag \<Rightarrow> string" where
  "formatTag t =
     (let u = ''up'' @ toString (maj (up t)) @ ''.'' @ toString (min' (up t))
      in ''v'' @ toString (year t) @ ''.'' @ u @ ''.'' @ toString (count t))"

text \<open>\<open>Array.prototype.sort\<close> with a comparator: a stable sort that puts \<open>a\<close> before
  \<open>b\<close> when the comparator is negative and keeps their order when it is zero or
  \<open>NaN\<close>.\<close>

fun insort_by :: "('a \<Rightarrow> 'a \<Rightarrow> number) \<Rightarrow> 'a \<Rightarrow> 'a list \<Rightarrow> 'a list" where
  "insort_by cmp x [] = [x]"
| "insort_by cmp x (y # ys) =
     (if js_gt (cmp x y) (Number 0) then y # insort_by cmp x ys else x # y # ys)"

definition sort_by :: "('a \<Rightarrow> 'a \<Rightarrow> number) \<Rightarrow> 'a list \<Rightarrow> 'a list" where
  "sort_by cmp xs = foldr (insort_by cmp) xs []"

text \<open>\<open>xs.map(f)\<close> for a callback that may throw: the first exception ends the map.\<close>

fun mapE :: "('a \<Rightarrow> error + 'b) \<Rightarrow> 'a list \<Rightarrow> error + 'b list" where
  "mapE f [] = Inr []"
| "mapE f (x # xs) =
     (case f x of
        Inl e \<Rightarrow> Inl e
      | Inr y \<Rightarrow> (case mapE f xs of Inl e \<Rightarrow> Inl e | Inr ys \<Rightarrow> Inr (y # ys)))"

text \<open>\<open>getRelevantTags\<close>, with the names of the tags that \<open>getAllTags\<close> fetched as
  the argument \<open>tagData\<close>.\<close>

definition getRelevantTags :: "string list \<Rightarrow> number \<Rightarrow> string \<Rightarrow> error + tag list" where
  "getRelevantTags tagData yr update =
     (case parseUpdate update of
        Inl e \<Rightarrow> Inl e
      | Inr None \<Rightarrow> Inr []
      | Inr (Some u) \<Rightarrow>
          (case mapE parseTag tagData of
             Inl e \<Rightarrow> Inl e
           | Inr tags \<Rightarrow>
               let validTags = sort_by compareTags (List.map_filter (\<lambda>t. t) tags);
                   relevantTags = filter (\<lambda>t. strictEq (year t) (parseInt (toString yr))
                                       \<and> strictEq (maj (up t)) (maj u)
                                       \<and> strictEq (min' (up t)) (min' u)) validTags
               in Inr relevantTags))"

definition getLatestTag :: "tag list \<Rightarrow> number \<Rightarrow> string \<Rightarrow> error + tag" where
  "getLatestTag sortedTags yr update =
     (if length sortedTags = 0 then
        (case parseUpdate update of
           Inl e \<Rightarrow> Inl e
         | Inr r \<Rightarrow>
             let u = (case r of None \<Rightarrow> \<lparr>maj = Number 0, min' = Number 0\<rparr> | Some u' \<Rightarrow> u')
             in Inr \<lparr>year = yr, up = u, count = Number (- 1)\<rparr>)
      else Inr (sortedTags ! (length sortedTags - 1)))"

definition getNewTag :: "tag \<Rightarrow> string" where
  "getNewTag latestTag =
     formatTag \<lparr>year = year latestTag, up = up latestTag,
                count = js_add (count latestTag) (Number 1)\<rparr>"

text \<open>The tag that \<open>action\<close> computes and hands to \<open>tagCommit\<close> and \<open>setOutput\<close>,
  from the fetched tag names and the configuration's \<open>year\<close> and \<open>update\<close>.\<close>

definition action :: "string list \<Rightarrow> number \<Rightarrow> string \<Rightarrow> error + string" where
  "action tagData yr update =
     (case getRelevantTags tagData yr update of
        Inl e \<Rightarrow> Inl e
      | Inr tags \<Rightarrow>
          (case getLatestTag tags yr update of
             Inl e \<Rightarrow> Inl e
           | Inr latestTag \<Rightarrow> Inr (getNewTag latestTag)))"

section \<open>The tag action, service-pack grammar (marker \<open>sp\<close>), file index.js\<close>

text \<open>
  The file index.js holds two versions of the action for the marker \<open>sp\<close>.  Both have
  the same \<open>parseServicePack\<close>, \<open>parseTag\<close> and \<open>compareTags\<close>; here \<open>parseTag\<close>
  calls \<open>tag.split(".")\<close>.  The field \<open>sp\<close> of their tags is the field \<open>up\<close> of
  the record above, and \<open>compareTags\<close> is the function above.
\<close>

definition parseServicePack :: "string \<Rightarrow> error + update_id option" where
  "parseServicePack sp =
     (if \<not> startsWith sp ''sp'' then Inr None
      else let parts = split CHR ''.'' sp in
        (case index parts 0 of
           None \<Rightarrow> Inl TypeError
         | Some p0 \<Rightarrow>
             let mj = parseInt (substr p0 2 (length p0 - 1));
                 mn = (if length parts = 1 then Number 0 else parseIntAt parts 1)
             in Inr (Some \<lparr>maj = mj, min' = mn\<rparr>)))"

definition parseTag_sp_try :: "string \<Rightarrow> error + tag option" where
  "parseTag_sp_try t =
     (if length t = 0 then Inr None
      else if \<not> startsWith t ''v'' then Inr None
      else (let parts = split CHR ''.'' t in
          (if length parts \<noteq> 3 \<and> length parts \<noteq> 4 then Inr None
           else (let y = parseInt (substr (parts ! 0) 1 (length (parts ! 0) - 1)) in
             (if js_lt y (Number 2000) \<or> js_gt y (Number 3000) then Inr None
              else (case parseServicePack (if length parts = 3 then parts ! 1
                                           else parts ! 1 @ ''.'' @ parts ! 2) of
                 Inl e \<Rightarrow> Inl e
               | Inr None \<Rightarrow> Inr None
               | Inr (Some u) \<Rightarrow>
                   (let c = parseInt (parts ! (length parts - 1)) in
                    (if js_lt c (Number 0) then Inr None
                     else Inr (Some \<lparr>year = y, up = u, count = c\<rparr>)))))))))"

definition parseTag_sp :: "string \<Rightarrow> error + tag option" where
  "parseTag_sp t = (case parseTag_sp_try t of Inl e \<Rightarrow> Inr None | Inr r \<Rightarrow> Inr r)"

subsection \<open>The later version (second in the file)\<close>

definition formatTag_sp :: "tag \<Rightarrow> string" where
  "formatTag_sp t =
     (let s = (if strictEq (min' (up t)) (Number 0) then ''sp'' @ toString (maj (up t))
               else ''sp'' @ toString (maj (up t)) @ ''.'' @ toString (min' (up t)))
      in ''v'' @ toString (year t) @ ''.'' @ s @ ''.'' @ toString (count t))"

definition getRelevantTags_sp :: "string list \<Rightarrow> number \<Rightarrow> string \<Rightarrow> error + tag list" where
  "getRelevantTags_sp tagData yr servicePack =
     (case parseServicePack servicePack of
        Inl e \<Rightarrow> Inl e
      | Inr None \<Rightarrow> Inr []
      | Inr (Some sp) \<Rightarrow>
          (case mapE parseTag_sp tagData of
             Inl e \<Rightarrow> Inl e
           | Inr tags \<Rightarrow>
               let validTags = sort_by compareTags (List.map_filter (\<lambda>t. t) tags);
                   relevantTags = filter (\<lambda>t. strictEq (year t) (parseInt (toString yr))
                                       \<and> strictEq (maj (up t)) (maj sp)
                                       \<and> strictEq (min' (up t)) (min' sp)) validTags
               in Inr relevantTags))"

definition getLatestTag_sp :: "tag list \<Rightarrow> number \<Rightarrow> string \<Rightarrow> error + tag" where
  "getLatestTag_sp sortedTags yr servicePack =
     (if length sortedTags = 0 then
        (case parseServicePack servicePack of
           Inl e \<Rightarrow> Inl e
         | Inr r \<Rightarrow>
             let sp = (case r of None \<Rightarrow> \<lparr>maj = Number 0, min' = Number 0\<rparr> | Some u' \<Rightarrow> u')
             in Inr \<lparr>year = yr, up = sp, count = Number (- 1)\<rparr>)
      else Inr (sortedTags ! (length sortedTags - 1)))"

definition getNewTag_sp :: "tag \<Rightarrow> string" where
  "getNewTag_sp latestTag =
     formatTag_sp \<lparr>year = year latestTag, up = up latestTag,
                   count = js_add (count latestTag) (Number 1)\<rparr>"

definition action_sp :: "string list \<Rightarrow> number \<Rightarrow> string \<Rightarrow> error + string" where
  "action_sp tagData yr servicePack =
     (case getRelevantTags_sp tagData yr servicePack of
        Inl e \<Rightarrow> Inl e
      | Inr tags \<Rightarrow>
          (case getLatestTag_sp tags yr servicePack of
             Inl e \<Rightarrow> Inl e
           | Inr latestTag \<Rightarrow> Inr (getNewTag_sp latestTag)))"

subsection \<open>The earlier version (first in the file)\<close>

text \<open>
  Its \<open>getRelevantTags\<close> sorts a filtered copy, \<open>validTags\<close>, and then filters the
  unfiltered array \<open>tags\<close>: the callback reads \<open>tag.year\<close>, which throws a
  \<open>TypeError\<close> on a \<open>null\<close> entry.  The year is compared without \<open>parseInt\<close>.
  The array \<open>tagStrings\<close> is taken to hold the tag names, as it is called.
\<close>

fun filterTags_v1 :: "(tag \<Rightarrow> bool) \<Rightarrow> tag option list \<Rightarrow> error + tag list" where
  "filterTags_v1 p [] = Inr []"
| "filterTags_v1 p (None # ts) = Inl TypeError"
| "filterTags_v1 p (Some t # ts) =
     (case filterTags_v1 p ts of Inl e \<Rightarrow> Inl e | Inr r \<Rightarrow> Inr (if p t then t # r else r))"

definition getRelevantTags_v1 :: "string list \<Rightarrow> number \<Rightarrow> string \<Rightarrow> error + tag list" where
  "getRelevantTags_v1 tagStrings yr servicePack =
     (case parseServicePack servicePack of
        Inl e \<Rightarrow> Inl e
      | Inr None \<Rightarrow> Inr []
      | Inr (Some sp) \<Rightarrow>
          (case mapE parseTag_sp tagStrings of
             Inl e \<Rightarrow> Inl e
           | Inr tags \<Rightarrow>
               let validTags = sort_by compareTags (List.map_filter (\<lambda>t. t) tags)
               in filterTags_v1 (\<lambda>t. strictEq (year t) yr
                                   \<and> strictEq (maj (up t)) (maj sp)
                                   \<and> strictEq (min' (up t)) (min' sp)) tags))"

definition getLatestTag_v1 :: "tag list \<Rightarrow> number \<Rightarrow> string \<Rightarrow> error + tag" where
  "getLatestTag_v1 sortedTags yr servicePack =
     (if length sortedTags = 0 then
        (case parseServicePack servicePack of
           Inl e \<Rightarrow> Inl e
         | Inr r \<Rightarrow>
             let sp = (case r of None \<Rightarrow> \<lparr>maj = Number 0, min' = Number 0\<rparr> | Some u' \<Rightarrow> u')
             in Inr \<lparr>year = yr, up = sp, count = Number (- 1)\<rparr>)
      else Inr (sortedTags ! 0))"

definition getNewTag_v1 :: "tag \<Rightarrow> string" where
  "getNewTag_v1 latestTag =
     (let sp = (if strictEq (min' (up latestTag)) (Number 0) then toString (maj (up latestTag))
                else toString (maj (up latestTag)) @ ''.'' @ toString (min' (up latestTag)))
      in ''v'' @ toString (year latestTag) @ ''.'' @ sp @ ''.''
           @ toString (js_add (count latestTag) (Number 1)))"

definition action_v1 :: "string list \<Rightarrow> number \<Rightarrow> string \<Rightarrow> error + string" where
  "action_v1 tagStrings yr servicePack =
     (case getRelevantTags_v1 tagStrings yr servicePack of
        Inl e \<Rightarrow> Inl e
      | Inr tags \<Rightarrow>
          (case getLatestTag_v1 tags yr servicePack of
             Inl e \<Rightarrow> Inl e
           | Inr latestTag \<Rightarrow> Inr (getNewTag_v1 latestTag)))"

section \<open>The order of the specification\<close>

text \<open>A tag whose four fields are integers, as every Version of the specification is.\<close>

definition numericTag :: "tag \<Rightarrow> bool" where
  "numericTag t = (year t \<noteq> NaN \<and> maj (up t) \<noteq> NaN \<and> min' (up t) \<noteq> NaN \<and> count t \<noteq> NaN)"

fun intOf :: "number \<Rightarrow> int" where
  "intOf (Number i) = i"
| "intOf NaN = 0"

text \<open>The lexicographic precedence in the specification's words: year, then update
  major, then update minor, then counter.\<close>

definition lexLess :: "tag \<Rightarrow> tag \<Rightarrow> bool" where
  "lexLess a b =
     (intOf (year a) < intOf (year b)
      \<or> (intOf (year a) = intOf (year b)
          \<and> (intOf (maj (up a)) < intOf (maj (up b))
              \<or> (intOf (maj (up a)) = intOf (maj (up b))
                  \<and> (intOf (min' (up a)) < intOf (min' (up b))
                      \<or> (intOf (min' (up a)) = intOf (min' (up b))
                          \<and> intOf (count a) < intOf (count b)))))))"

text \<open>When a sort leaves \<open>a\<close> before \<open>b\<close>: the comparator is not positive.\<close>

definition inOrder :: "('a \<Rightarrow> 'a \<Rightarrow> number) \<Rightarrow> 'a \<Rightarrow> 'a \<Rightarrow> bool" where
  "inOrder cmp a b = (\<not> js_gt (cmp a b) (Number 0))"

section \<open>The range in which the model of numbers is exact\<close>

text \<open>A number that JavaScript represents exactly and prints in decimal notation, and a
  tag made of such numbers.\<close>

definition exactNumber :: "number \<Rightarrow> bool" where
  "exactNumber x = (case x of NaN \<Rightarrow> True | Number i \<Rightarrow> \<bar>i\<bar> < 2 ^ 53)"

definition exactTag :: "tag \<Rightarrow> bool" where
  "exactTag t = (exactNumber (year t) \<and> exactNumber (maj (up t)) \<and> exactNumber (min' (up t))
                 \<and> exactNumber (count t))"

text \<open>The characters that \<open>toString\<close> writes for an integer.\<close>

definition decimal :: "char \<Rightarrow> bool" where
  "decimal c = (c \<in> set ''0123456789'')"

section \<open>Facts about the string and array helpers\<close>

lemma strictEq_eq: "strictEq a b \<Longrightarrow> a = b"
  by (cases a; cases b) simp_all

lemma split_not_Nil: "split sep s \<noteq> []"
  by (induction s) (auto split: list.splits)

lemma split_no_sep: "sep \<notin> set a \<Longrightarrow> split sep a = [a]"
  by (induction a) auto

lemma split_append_sep: "sep \<notin> set a \<Longrightarrow> split sep (a @ sep # r) = a # split sep r"
  by (induction a) auto

lemma split_append: "split sep (xs @ sep # ys) = split sep xs @ split sep ys"
  by (induction xs) (auto simp: split_not_Nil split: list.splits)

lemma last_split_append: "last (split sep (xs @ sep # ys)) = last (split sep ys)"
  by (simp add: split_append split_not_Nil)

lemma substr_rest: "0 < k \<Longrightarrow> substr p k (length p - Suc 0) = drop k p"
  by (simp add: substr_def)

lemma digitsOf_0: "digitsOf 0 = ''0''"
  by (simp add: digitsOf.simps)

section \<open>Facts about parseInt and number formatting\<close>

text \<open>\<open>parseInt\<close> reads back what a template literal writes for a number, and the
  written text has no dot.\<close>

lemma decimal_all:
  "\<forall>c\<in>set ''0123456789''. \<not> isWhiteSpace c \<and> c \<noteq> CHR ''+'' \<and> c \<noteq> CHR ''-'' \<and> c \<noteq> CHR ''x''
      \<and> c \<noteq> CHR ''X'' \<and> c \<noteq> CHR ''.'' \<and> isDigit 10 c"
  by code_simp

lemma digitVal_all: "\<forall>k\<in>set [0..<10]. digitVal (''0123456789'' ! k) = Some k"
  by code_simp

lemma decimal_facts:
  assumes "decimal c"
  shows "\<not> isWhiteSpace c" "c \<noteq> CHR ''+''" "c \<noteq> CHR ''-''" "c \<noteq> CHR ''x''" "c \<noteq> CHR ''X''"
    "c \<noteq> CHR ''.''" "isDigit 10 c"
  using assms decimal_all unfolding decimal_def by blast+

lemma digitVal_nth: "k < 10 \<Longrightarrow> digitVal (''0123456789'' ! k) = Some k"
  using digitVal_all by simp

lemma decimal_nth: "k < 10 \<Longrightarrow> decimal (''0123456789'' ! k)"
  unfolding decimal_def by (rule nth_mem) simp

lemma digitsOf_decimal: "\<forall>c\<in>set (digitsOf n). decimal c"
  by (induction n rule: digitsOf.induct) (subst digitsOf.simps, auto simp: decimal_nth)

lemma digitsOf_not_Nil: "digitsOf n \<noteq> []"
  by (subst digitsOf.simps) simp

lemma digitsValue_snoc: "digitsValue R (z @ [c]) = digitsValue R z * R + the (digitVal c)"
  by (simp add: digitsValue_def)

lemma digitsValue_digitsOf: "digitsValue 10 (digitsOf n) = n"
proof (induction n rule: digitsOf.induct)
  case (1 n)
  show ?case
  proof (cases "n < 10")
    case True
    then show ?thesis
      by (subst digitsOf.simps) (simp add: digitsValue_def digitVal_nth)
  next
    case False
    then have "digitsValue 10 (digitsOf (n div 10)) = n div 10" using 1 by simp
    with False show ?thesis
      by (subst digitsOf.simps) (simp add: digitsValue_snoc digitVal_nth)
  qed
qed

lemma parseInt_minus:
  "parseInt (CHR ''-'' # z) =
     (let hex = (take 2 z = ''0x'' \<or> take 2 z = ''0X'');
          R = (if hex then 16 else 10);
          s3 = (if hex then drop 2 z else z);
          d = takeWhile (isDigit R) s3
      in if d = [] then NaN else Number (- int (digitsValue R d)))"
proof -
  have nm: "dropWhile isWhiteSpace (CHR ''-'' # z) = CHR ''-'' # z"
    by (simp add: isWhiteSpace_def)
  show ?thesis
    unfolding parseInt_def nm by (simp only: Let_def list.sel if_True simp_thms) simp
qed

lemma parseInt_decimals:
  assumes "z \<noteq> []" "\<forall>c\<in>set z. decimal c"
  shows "parseInt z = Number (int (digitsValue 10 z))"
    and "parseInt (CHR ''-'' # z) = Number (- int (digitsValue 10 z))"
proof -
  obtain c cs where z: "z = c # cs" using assms(1) by (cases z) auto
  have c: "decimal c" using assms(2) z by simp
  have nohex: "take 2 z \<noteq> ''0x''" "take 2 z \<noteq> ''0X''"
    using assms(2) decimal_facts(4,5) by (cases cs; auto simp: z)+
  have tw: "takeWhile (isDigit 10) z = z"
    using assms(2) decimal_facts(7) by simp
  have dw: "dropWhile isWhiteSpace z = z"
    using decimal_facts(1) [OF c] by (simp add: z)
  show "parseInt z = Number (int (digitsValue 10 z))"
    using nohex decimal_facts(2,3) [OF c] assms(1)
    by (simp add: parseInt_def dw tw Let_def) (simp add: z)
  show "parseInt (CHR ''-'' # z) = Number (- int (digitsValue 10 z))"
    using nohex assms(1) by (simp add: parseInt_minus tw)
qed

lemma parseInt_toString: "parseInt (toString x) = x"
proof (cases x)
  case NaN
  have "parseInt ''NaN'' = NaN" by code_simp
  then show ?thesis by (simp add: NaN)
next
  case (Number i)
  show ?thesis
    using parseInt_decimals [OF digitsOf_not_Nil digitsOf_decimal]
    by (simp add: Number digitsValue_digitsOf)
qed

lemma toString_no_dot: "CHR ''.'' \<notin> set (toString x)"
proof (cases x)
  case NaN
  then show ?thesis by simp
next
  case (Number i)
  have "CHR ''.'' \<notin> set (digitsOf n)" for n
    using digitsOf_decimal [of n] decimal_facts(6) by blast
  then show ?thesis by (simp add: Number)
qed


section \<open>Facts about the parsers\<close>

text \<open>With the marker in front, \<open>parseUpdate\<close> and \<open>parseServicePack\<close> always build
  an object: from the first segment without the marker and, if there is one, the second
  segment.\<close>

lemma parseUpdate_marked:
  assumes "startsWith u ''up''"
  shows "parseUpdate u =
    Inr (Some \<lparr>maj = parseInt (drop 2 (hd (split CHR ''.'' u))),
               min' = (if length (split CHR ''.'' u) = 1 then Number 0
                       else parseIntAt (split CHR ''.'' u) 1)\<rparr>)"
proof -
  obtain p ps where ps: "split CHR ''.'' u = p # ps"
    using split_not_Nil [of "CHR ''.''" u] by (cases "split CHR ''.'' u") auto
  show ?thesis
    using assms by (simp add: parseUpdate_def ps index_def substr_rest Let_def)
qed

lemma parseServicePack_marked:
  assumes "startsWith u ''sp''"
  shows "parseServicePack u =
    Inr (Some \<lparr>maj = parseInt (drop 2 (hd (split CHR ''.'' u))),
               min' = (if length (split CHR ''.'' u) = 1 then Number 0
                       else parseIntAt (split CHR ''.'' u) 1)\<rparr>)"
proof -
  obtain p ps where ps: "split CHR ''.'' u = p # ps"
    using split_not_Nil [of "CHR ''.''" u] by (cases "split CHR ''.'' u") auto
  show ?thesis
    using assms by (simp add: parseServicePack_def ps index_def substr_rest Let_def)
qed

lemma parseUpdate_returns: "\<exists>r. parseUpdate u = Inr r"
  by (cases "startsWith u ''up''") (simp_all add: parseUpdate_marked, simp add: parseUpdate_def)

lemma parseServicePack_returns: "\<exists>r. parseServicePack u = Inr r"
  by (cases "startsWith u ''sp''")
    (simp_all add: parseServicePack_marked, simp add: parseServicePack_def)

lemma parseUpdate_invalid_iff: "(parseUpdate u = Inr None) = (\<not> startsWith u ''up'')"
  by (cases "startsWith u ''up''") (simp_all add: parseUpdate_marked, simp add: parseUpdate_def)

lemma parseServicePack_invalid_iff: "(parseServicePack u = Inr None) = (\<not> startsWith u ''sp'')"
  by (cases "startsWith u ''sp''")
    (simp_all add: parseServicePack_marked, simp add: parseServicePack_def)

text \<open>The segments that the two parsers read from a text with at least two segments.\<close>

lemma two_segments:
  assumes "CHR ''.'' \<notin> set p0" "CHR ''.'' \<notin> set b"
  shows "split CHR ''.'' (p0 @ CHR ''.'' # b @ CHR ''.'' # c) = p0 # b # split CHR ''.'' c"
    and "split CHR ''.'' (p0 @ CHR ''.'' # b) = [p0, b]"
  using split_append_sep [OF assms(1)] split_append_sep [OF assms(2)] split_no_sep [OF assms(2)]
  by simp_all

lemma parseUpdate_segments:
  assumes "CHR ''.'' \<notin> set a" "CHR ''.'' \<notin> set b"
  shows "parseUpdate (''up'' @ a @ ''.'' @ b @ ''.'' @ c)
           = Inr (Some \<lparr>maj = parseInt a, min' = parseInt b\<rparr>)"
    and "parseUpdate (''up'' @ a @ ''.'' @ b) = Inr (Some \<lparr>maj = parseInt a, min' = parseInt b\<rparr>)"
proof -
  define p0 where "p0 = ''up'' @ a"
  define u1 where "u1 = p0 @ CHR ''.'' # b @ CHR ''.'' # c"
  define u2 where "u2 = p0 @ CHR ''.'' # b"
  have a: "CHR ''.'' \<notin> set p0" using assms by (simp add: p0_def)
  have s1: "split CHR ''.'' u1 = p0 # b # split CHR ''.'' c"
    unfolding u1_def by (rule two_segments [OF a assms(2)])
  have s2: "split CHR ''.'' u2 = [p0, b]"
    unfolding u2_def by (rule two_segments [OF a assms(2)])
  have m1: "startsWith u1 ''up''" and m2: "startsWith u2 ''up''"
    by (simp_all add: startsWith_def u1_def u2_def p0_def)
  have d: "drop 2 p0 = a" by (simp add: p0_def)
  have "parseUpdate u1 = Inr (Some \<lparr>maj = parseInt a, min' = parseInt b\<rparr>)"
    by (simp add: parseUpdate_marked [OF m1] s1 d parseIntAt_def index_def)
  then show "parseUpdate (''up'' @ a @ ''.'' @ b @ ''.'' @ c)
      = Inr (Some \<lparr>maj = parseInt a, min' = parseInt b\<rparr>)"
    by (simp add: u1_def p0_def)
  have "parseUpdate u2 = Inr (Some \<lparr>maj = parseInt a, min' = parseInt b\<rparr>)"
    by (simp add: parseUpdate_marked [OF m2] s2 d parseIntAt_def index_def)
  then show "parseUpdate (''up'' @ a @ ''.'' @ b) = Inr (Some \<lparr>maj = parseInt a, min' = parseInt b\<rparr>)"
    by (simp add: u2_def p0_def)
qed

lemma parseServicePack_segments:
  assumes "CHR ''.'' \<notin> set a" "CHR ''.'' \<notin> set b"
  shows "parseServicePack (''sp'' @ a @ ''.'' @ b @ ''.'' @ c)
           = Inr (Some \<lparr>maj = parseInt a, min' = parseInt b\<rparr>)"
    and "parseServicePack (''sp'' @ a @ ''.'' @ b)
           = Inr (Some \<lparr>maj = parseInt a, min' = parseInt b\<rparr>)"
proof -
  define p0 where "p0 = ''sp'' @ a"
  define u1 where "u1 = p0 @ CHR ''.'' # b @ CHR ''.'' # c"
  define u2 where "u2 = p0 @ CHR ''.'' # b"
  have a: "CHR ''.'' \<notin> set p0" using assms by (simp add: p0_def)
  have s1: "split CHR ''.'' u1 = p0 # b # split CHR ''.'' c"
    unfolding u1_def by (rule two_segments [OF a assms(2)])
  have s2: "split CHR ''.'' u2 = [p0, b]"
    unfolding u2_def by (rule two_segments [OF a assms(2)])
  have m1: "startsWith u1 ''sp''" and m2: "startsWith u2 ''sp''"
    by (simp_all add: startsWith_def u1_def u2_def p0_def)
  have d: "drop 2 p0 = a" by (simp add: p0_def)
  have "parseServicePack u1 = Inr (Some \<lparr>maj = parseInt a, min' = parseInt b\<rparr>)"
    by (simp add: parseServicePack_marked [OF m1] s1 d parseIntAt_def index_def)
  then show "parseServicePack (''sp'' @ a @ ''.'' @ b @ ''.'' @ c)
      = Inr (Some \<lparr>maj = parseInt a, min' = parseInt b\<rparr>)"
    by (simp add: u1_def p0_def)
  have "parseServicePack u2 = Inr (Some \<lparr>maj = parseInt a, min' = parseInt b\<rparr>)"
    by (simp add: parseServicePack_marked [OF m2] s2 d parseIntAt_def index_def)
  then show "parseServicePack (''sp'' @ a @ ''.'' @ b)
      = Inr (Some \<lparr>maj = parseInt a, min' = parseInt b\<rparr>)"
    by (simp add: u2_def p0_def)
qed

text \<open>Because of the call of \<open>uplit\<close>, \<open>parseTag\<close> of the update grammar rejects
  every tag name, and the release line that \<open>getRelevantTags\<close> returns is always
  empty.\<close>

lemma parseTag_invalid: "parseTag t = Inr None"
  by (simp add: parseTag_def parseTag_try_def uplit_def)

lemma mapE_parseTag: "mapE parseTag ts = Inr (map (\<lambda>t. None) ts)"
  by (induction ts) (simp_all add: parseTag_invalid)

lemma map_filter_None: "List.map_filter (\<lambda>t. t) (map (\<lambda>t. None) ts) = []"
  by (induction ts) simp_all

lemma getRelevantTags_empty: "getRelevantTags tagData yr u = Inr []"
  using parseUpdate_returns [of u]
  by (auto simp: getRelevantTags_def mapE_parseTag map_filter_None sort_by_def
      split: option.splits)

text \<open>\<open>parseTag\<close> of index.js returns normally, and what it accepts has passed the two
  range checks: the year is not below 2000 and not above 3000, the count not below 0,
  as JavaScript compares them.\<close>

lemma parseTag_sp_Inr: "parseTag_sp t = Inr (projr (parseTag_sp t))"
  by (simp add: parseTag_sp_def split: sum.splits)

lemma parseTag_sp_range:
  assumes "parseTag_sp t = Inr (Some v)"
  shows "\<not> js_lt (year v) (Number 2000) \<and> \<not> js_gt (year v) (Number 3000)
         \<and> \<not> js_lt (count v) (Number 0)"
  using assms
  by (auto simp: parseTag_sp_def parseTag_sp_try_def Let_def
      split: if_splits sum.splits option.splits)

section \<open>Invalid tag names in the later versions\<close>

text \<open>The later version of index.js and the update grammar filter \<open>validTags\<close>: a tag
  name that does not parse changes nothing.\<close>

lemma mapE_parseTag_sp: "mapE parseTag_sp ts = Inr (map (\<lambda>t. projr (parseTag_sp t)) ts)"
proof (induction ts)
  case Nil
  show ?case by simp
next
  case (Cons t ts)
  obtain r where r: "parseTag_sp t = Inr r" using parseTag_sp_Inr by blast
  show ?case by (simp add: Cons r)
qed

lemma valid_of_filtered:
  "List.map_filter (\<lambda>t. t)
     (map (\<lambda>t. projr (parseTag_sp t)) (filter (\<lambda>t. parseTag_sp t \<noteq> Inr None) ts))
   = List.map_filter (\<lambda>t. t) (map (\<lambda>t. projr (parseTag_sp t)) ts)"
proof (induction ts)
  case Nil
  show ?case by simp
next
  case (Cons t ts)
  obtain r where r: "parseTag_sp t = Inr r" using parseTag_sp_Inr by blast
  show ?case using Cons by (cases r) (simp_all add: r)
qed

lemma getRelevantTags_sp_ignores_invalid:
  "getRelevantTags_sp (filter (\<lambda>t. parseTag_sp t \<noteq> Inr None) tagData) yr sp
   = getRelevantTags_sp tagData yr sp"
  by (simp add: getRelevantTags_sp_def mapE_parseTag_sp valid_of_filtered
      split: sum.splits option.splits)

lemma action_sp_ignores_invalid:
  "action_sp (filter (\<lambda>t. parseTag_sp t \<noteq> Inr None) tagData) yr sp = action_sp tagData yr sp"
  by (simp add: action_sp_def getRelevantTags_sp_ignores_invalid)

lemma action_ignores_invalid:
  "action (filter (\<lambda>t. parseTag t \<noteq> Inr None) tagData) yr u = action tagData yr u"
  by (simp add: action_def getRelevantTags_empty)

section \<open>Formatting and parsing in the later version of index.js\<close>

text \<open>A tag that \<open>parseTag\<close> of index.js returns is returned again for its formatted
  text, in the range in which numbers are exact and printed in decimal notation.\<close>

lemma split3:
  assumes "CHR ''.'' \<notin> set a" "CHR ''.'' \<notin> set b" "CHR ''.'' \<notin> set c"
  shows "split CHR ''.'' (a @ CHR ''.'' # b @ CHR ''.'' # c) = [a, b, c]"
  using split_append_sep [OF assms(1)] split_append_sep [OF assms(2)] split_no_sep [OF assms(3)]
  by simp

lemma split4:
  assumes "CHR ''.'' \<notin> set a" "CHR ''.'' \<notin> set b" "CHR ''.'' \<notin> set c" "CHR ''.'' \<notin> set d"
  shows "split CHR ''.'' (a @ CHR ''.'' # b @ CHR ''.'' # c @ CHR ''.'' # d) = [a, b, c, d]"
  using split_append_sep [OF assms(1)] split_append_sep [OF assms(2)]
    split_append_sep [OF assms(3)] split_no_sep [OF assms(4)]
  by simp

lemma parseServicePack_major:
  assumes "CHR ''.'' \<notin> set a"
  shows "parseServicePack (''sp'' @ a) = Inr (Some \<lparr>maj = parseInt a, min' = Number 0\<rparr>)"
proof -
  define p0 where "p0 = ''sp'' @ a"
  have d: "CHR ''.'' \<notin> set p0" using assms by (simp add: p0_def)
  have m: "startsWith p0 ''sp''" by (simp add: startsWith_def p0_def)
  have "parseServicePack p0 = Inr (Some \<lparr>maj = parseInt a, min' = Number 0\<rparr>)"
    by (simp add: parseServicePack_marked [OF m] split_no_sep [OF d]) (simp add: p0_def)
  then show ?thesis by (simp add: p0_def)
qed

lemma parseTag_sp_formatTag_sp:
  assumes "parseTag_sp t = Inr (Some v)" "exactTag v"
  shows "parseTag_sp (formatTag_sp v) = Inr (Some v)"
proof -
  obtain y u c where v: "v = \<lparr>year = y, up = u, count = c\<rparr>" by (cases v) auto
  obtain m n where u: "u = \<lparr>maj = m, min' = n\<rparr>" by (cases u) auto
  have r: "\<not> js_lt y (Number 2000)" "\<not> js_gt y (Number 3000)" "\<not> js_lt c (Number 0)"
    using parseTag_sp_range [OF assms(1)] by (simp_all add: v)
  define p0 where "p0 = CHR ''v'' # toString y"
  define p1 where "p1 = ''sp'' @ toString m"
  have d: "CHR ''.'' \<notin> set p0" "CHR ''.'' \<notin> set p1"
    "CHR ''.'' \<notin> set (toString n)" "CHR ''.'' \<notin> set (toString c)"
    "CHR ''.'' \<notin> set (toString m)"
    using toString_no_dot by (simp_all add: p0_def p1_def)
  have y: "parseInt (substr p0 (Suc 0) (length p0 - Suc 0)) = y"
    by (simp add: p0_def substr_def parseInt_toString)
  show ?thesis
  proof (cases "strictEq n (Number 0)")
    case True
    then have n: "n = Number 0" by (rule strictEq_eq)
    define s where "s = p0 @ CHR ''.'' # p1 @ CHR ''.'' # toString c"
    have f: "formatTag_sp v = s"
      by (simp add: formatTag_sp_def v u n s_def p0_def p1_def)
    have sp: "split CHR ''.'' s = [p0, p1, toString c]"
      unfolding s_def by (rule split3 [OF d(1) d(2) d(4)])
    have st: "length s \<noteq> 0" "startsWith s ''v''"
      by (simp_all add: s_def p0_def startsWith_def)
    have up: "parseServicePack p1 = Inr (Some u)"
      unfolding p1_def using parseServicePack_major [OF d(5)]
      by (simp add: parseInt_toString u n)
    have "parseTag_sp_try s = Inr (Some v)"
      using st r by (simp add: parseTag_sp_try_def sp y up parseInt_toString v Let_def)
    then show ?thesis by (simp add: parseTag_sp_def f)
  next
    case False
    define s where "s = p0 @ CHR ''.'' # p1 @ CHR ''.'' # toString n @ CHR ''.'' # toString c"
    have f: "formatTag_sp v = s"
      using False by (simp add: formatTag_sp_def v u s_def p0_def p1_def)
    have sp: "split CHR ''.'' s = [p0, p1, toString n, toString c]"
      unfolding s_def by (rule split4 [OF d(1) d(2) d(3) d(4)])
    have st: "length s \<noteq> 0" "startsWith s ''v''"
      by (simp_all add: s_def p0_def startsWith_def)
    have up: "parseServicePack (p1 @ CHR ''.'' # toString n) = Inr (Some u)"
      unfolding p1_def using parseServicePack_segments(2) [OF d(5) d(3)]
      by (simp add: parseInt_toString u)
    have "parseTag_sp_try s = Inr (Some v)"
      using st r by (simp add: parseTag_sp_try_def sp y up parseInt_toString v Let_def)
    then show ?thesis by (simp add: parseTag_sp_def f)
  qed
qed

section \<open>Facts about the comparator\<close>

lemma numericTag_fields:
  assumes "numericTag a"
  obtains y m n c where
    "a = \<lparr>year = Number y, up = \<lparr>maj = Number m, min' = Number n\<rparr>, count = Number c\<rparr>"
proof -
  obtain y u c where a: "a = \<lparr>year = y, up = u, count = c\<rparr>" by (cases a) auto
  obtain m n where u: "u = \<lparr>maj = m, min' = n\<rparr>" by (cases u) auto
  from assms show ?thesis
    using that by (cases y; cases m; cases n; cases c) (auto simp: a u numericTag_def)
qed

lemma compareTags_less:
  assumes "numericTag a" "numericTag b"
  shows "js_lt (compareTags a b) (Number 0) = lexLess a b"
proof -
  from assms(1) obtain y m n c where
    a: "a = \<lparr>year = Number y, up = \<lparr>maj = Number m, min' = Number n\<rparr>, count = Number c\<rparr>"
    by (rule numericTag_fields)
  from assms(2) obtain y' m' n' c' where
    b: "b = \<lparr>year = Number y', up = \<lparr>maj = Number m', min' = Number n'\<rparr>, count = Number c'\<rparr>"
    by (rule numericTag_fields)
  show ?thesis by (auto simp: a b compareTags_def lexLess_def)
qed

lemma compareTags_greater:
  assumes "numericTag a" "numericTag b"
  shows "js_gt (compareTags a b) (Number 0) = lexLess b a"
proof -
  from assms(1) obtain y m n c where
    a: "a = \<lparr>year = Number y, up = \<lparr>maj = Number m, min' = Number n\<rparr>, count = Number c\<rparr>"
    by (rule numericTag_fields)
  from assms(2) obtain y' m' n' c' where
    b: "b = \<lparr>year = Number y', up = \<lparr>maj = Number m', min' = Number n'\<rparr>, count = Number c'\<rparr>"
    by (rule numericTag_fields)
  show ?thesis by (auto simp: a b compareTags_def lexLess_def)
qed

lemma compareTags_zero:
  assumes "numericTag a" "numericTag b"
  shows "(compareTags a b = Number 0)
     = (year a = year b \<and> maj (up a) = maj (up b) \<and> min' (up a) = min' (up b) \<and> count a = count b)"
proof -
  from assms(1) obtain y m n c where
    a: "a = \<lparr>year = Number y, up = \<lparr>maj = Number m, min' = Number n\<rparr>, count = Number c\<rparr>"
    by (rule numericTag_fields)
  from assms(2) obtain y' m' n' c' where
    b: "b = \<lparr>year = Number y', up = \<lparr>maj = Number m', min' = Number n'\<rparr>, count = Number c'\<rparr>"
    by (rule numericTag_fields)
  show ?thesis by (auto simp: a b compareTags_def)
qed

lemma lexLess_trans: "lexLess a b \<Longrightarrow> lexLess b c \<Longrightarrow> lexLess a c"
  unfolding lexLess_def by (elim disjE conjE) simp_all

lemma lexLess_asym: "lexLess a b \<Longrightarrow> \<not> lexLess b a"
  unfolding lexLess_def by auto

lemma lexLess_total:
  assumes "numericTag a" "numericTag b"
  shows "lexLess a b \<or> (year a = year b \<and> maj (up a) = maj (up b)
            \<and> min' (up a) = min' (up b) \<and> count a = count b) \<or> lexLess b a"
proof -
  from assms(1) obtain y m n c where
    a: "a = \<lparr>year = Number y, up = \<lparr>maj = Number m, min' = Number n\<rparr>, count = Number c\<rparr>"
    by (rule numericTag_fields)
  from assms(2) obtain y' m' n' c' where
    b: "b = \<lparr>year = Number y', up = \<lparr>maj = Number m', min' = Number n'\<rparr>, count = Number c'\<rparr>"
    by (rule numericTag_fields)
  show ?thesis by (auto simp: a b lexLess_def)
qed

section \<open>Facts about the sort\<close>

text \<open>On tags with integer fields the sort returns the tags in the order of
  \<open>compareTags\<close>.\<close>

lemma set_insort_by: "set (insort_by cmp x xs) = insert x (set xs)"
  by (induction xs) auto

lemma set_sort_by: "set (sort_by cmp xs) = set xs"
  by (induction xs) (simp_all add: sort_by_def set_insort_by)

lemma inOrder_numeric:
  "numericTag a \<Longrightarrow> numericTag b \<Longrightarrow> inOrder compareTags a b = (\<not> lexLess b a)"
  by (simp add: inOrder_def compareTags_greater)

lemma not_lexLess_trans:
  "\<not> lexLess b a \<Longrightarrow> \<not> lexLess c b \<Longrightarrow> \<not> lexLess c a"
  unfolding lexLess_def by auto

lemma sorted_insort_by:
  assumes "numericTag x" "\<forall>y\<in>set xs. numericTag y" "sorted_wrt (inOrder compareTags) xs"
  shows "sorted_wrt (inOrder compareTags) (insort_by compareTags x xs)"
  using assms
proof (induction xs)
  case Nil
  show ?case by simp
next
  case (Cons y ys)
  show ?case
  proof (cases "js_gt (compareTags x y) (Number 0)")
    case True
    then have "lexLess y x" using Cons.prems by (simp add: compareTags_greater)
    then have "inOrder compareTags y x"
      using Cons.prems lexLess_asym [of y x] by (simp add: inOrder_numeric)
    with True Cons show ?thesis by (simp add: set_insort_by)
  next
    case False
    then have xy: "inOrder compareTags x y" by (simp add: inOrder_def)
    have "inOrder compareTags x z" if "z \<in> set ys" for z
    proof -
      have "inOrder compareTags y z" using Cons.prems(3) that by simp
      with xy show ?thesis
        using Cons.prems(1,2) that not_lexLess_trans [of y x z] by (simp add: inOrder_numeric)
    qed
    with False xy Cons.prems show ?thesis by simp
  qed
qed

lemma sorted_sort_by:
  "\<forall>y\<in>set xs. numericTag y \<Longrightarrow> sorted_wrt (inOrder compareTags) (sort_by compareTags xs)"
proof (induction xs)
  case Nil
  show ?case by (simp add: sort_by_def)
next
  case (Cons x xs)
  then have "sorted_wrt (inOrder compareTags) (insort_by compareTags x (sort_by compareTags xs))"
    by (intro sorted_insort_by) (simp_all add: set_sort_by)
  then show ?case by (simp add: sort_by_def)
qed

lemma sorted_wrt_last:
  "sorted_wrt P xs \<Longrightarrow> x \<in> set xs \<Longrightarrow> x = last xs \<or> P x (last xs)"
  by (induction xs) (auto split: if_splits)


section \<open>Facts about the latest and the new tag\<close>

text \<open>On a line that is not empty, \<open>getLatestTag\<close> of the update grammar and of the
  later version of index.js returns the last tag, and the earlier version the first;
  \<open>getNewTag\<close> adds 1 to the counter and keeps the other fields.\<close>

lemma getLatestTag_last:
  "sortedTags \<noteq> [] \<Longrightarrow> getLatestTag sortedTags yr u = Inr (last sortedTags)"
  by (simp add: getLatestTag_def last_conv_nth)

lemma getLatestTag_sp_last:
  "sortedTags \<noteq> [] \<Longrightarrow> getLatestTag_sp sortedTags yr sp = Inr (last sortedTags)"
  by (simp add: getLatestTag_sp_def last_conv_nth)

lemma getLatestTag_v1_first:
  "sortedTags \<noteq> [] \<Longrightarrow> getLatestTag_v1 sortedTags yr sp = Inr (hd sortedTags)"
  by (simp add: getLatestTag_v1_def hd_conv_nth)

lemma getNewTag_increments:
  "getNewTag t = formatTag (t\<lparr>count := js_add (count t) (Number 1)\<rparr>)"
  by (cases t) (simp add: getNewTag_def)

text \<open>The later version of index.js on a line that is not empty, when the tags that
  parse have integer fields in the exact range: the new tag is the last tag of the line
  with the counter plus 1, and the last tag has the year and update of every tag of the
  line and the largest counter.\<close>

lemma set_map_filter_id: "set (List.map_filter (\<lambda>t. t) xs) = {v. Some v \<in> set xs}"
  by (induction xs) (auto split: option.splits)

lemma valid_tags_sp:
  "set (List.map_filter (\<lambda>t. t) (map (\<lambda>t. projr (parseTag_sp t)) tagData))
   = {v. \<exists>t\<in>set tagData. parseTag_sp t = Inr (Some v)}"
proof -
  have "(Some v = projr (parseTag_sp t)) = (parseTag_sp t = Inr (Some v))" for t v
    using parseTag_sp_Inr [of t] by (cases "parseTag_sp t") auto
  then show ?thesis by (auto simp: set_map_filter_id image_iff)
qed

lemma same_line_count:
  assumes "numericTag a" "numericTag b" "inOrder compareTags a b"
    "year a = year b" "up a = up b"
  shows "intOf (count a) \<le> intOf (count b)"
  using assms by (simp add: inOrder_numeric lexLess_def)

lemma action_sp_increments:
  assumes line: "getRelevantTags_sp tagData yr sp = Inr line" and ne: "line \<noteq> []"
    and num: "\<And>t v. t \<in> set tagData \<Longrightarrow> parseTag_sp t = Inr (Some v) \<Longrightarrow> numericTag v"
    and exact: "\<And>t v. t \<in> set tagData \<Longrightarrow> parseTag_sp t = Inr (Some v) \<Longrightarrow> exactTag v"
  shows "action_sp tagData yr sp
           = Inr (formatTag_sp ((last line)\<lparr>count := js_add (count (last line)) (Number 1)\<rparr>))"
    and "\<forall>t\<in>set line. year t = year (last line) \<and> up t = up (last line)
           \<and> intOf (count t) \<le> intOf (count (last line))"
proof -
  show "action_sp tagData yr sp
      = Inr (formatTag_sp ((last line)\<lparr>count := js_add (count (last line)) (Number 1)\<rparr>))"
    using ne by (cases "last line")
      (simp add: action_sp_def line getLatestTag_sp_last getNewTag_sp_def)
  obtain k where k: "parseServicePack sp = Inr (Some k)"
    using line ne by (auto simp: getRelevantTags_sp_def split: sum.splits option.splits)
  define valid where
    "valid = sort_by compareTags (List.map_filter (\<lambda>t. t) (map (\<lambda>t. projr (parseTag_sp t)) tagData))"
  define P :: "tag \<Rightarrow> bool" where "P = (\<lambda>t. strictEq (year t) (parseInt (toString yr))
      \<and> strictEq (maj (up t)) (maj k) \<and> strictEq (min' (up t)) (min' k))"
  have l: "line = filter P valid"
    using line by (simp add: getRelevantTags_sp_def k mapE_parseTag_sp valid_def P_def)
  have nv: "\<forall>v\<in>set valid. numericTag v"
    using num by (auto simp: valid_def set_sort_by valid_tags_sp)
  then have "sorted_wrt (inOrder compareTags) valid"
    unfolding valid_def by (intro sorted_sort_by) (simp add: set_sort_by)
  then have sl: "sorted_wrt (inOrder compareTags) line"
    unfolding l by (rule sorted_wrt_filter)
  have same: "year t = parseInt (toString yr) \<and> up t = k" if "t \<in> set line" for t
  proof -
    from that have "P t" by (simp add: l)
    then have "year t = parseInt (toString yr)" "maj (up t) = maj k" "min' (up t) = min' k"
      by (simp_all add: P_def strictEq_eq)
    then show ?thesis by simp
  qed
  have lastl: "last line \<in> set line" using ne by simp
  show "\<forall>t\<in>set line. year t = year (last line) \<and> up t = up (last line)
           \<and> intOf (count t) \<le> intOf (count (last line))"
  proof
    fix t assume t: "t \<in> set line"
    have e: "year t = year (last line)" "up t = up (last line)"
      using same [OF t] same [OF lastl] by simp_all
    have n: "numericTag t" "numericTag (last line)"
      using nv t lastl by (simp_all add: l)
    from sorted_wrt_last [OF sl t] have "intOf (count t) \<le> intOf (count (last line))"
    proof
      assume "t = last line" then show ?thesis by simp
    next
      assume "inOrder compareTags t (last line)"
      then show ?thesis using n e by (intro same_line_count)
    qed
    with e show "year t = year (last line) \<and> up t = up (last line)
           \<and> intOf (count t) \<le> intOf (count (last line))" by simp
  qed
qed

text \<open>In the earlier version of index.js one tag name that does not parse makes
  \<open>getRelevantTags\<close> throw, whatever the other names are.\<close>

lemma filterTags_v1_throws: "None \<in> set ts \<Longrightarrow> filterTags_v1 p ts = Inl TypeError"
  by (induction p ts rule: filterTags_v1.induct) (auto split: sum.splits)

lemma getRelevantTags_v1_throws:
  assumes "parseServicePack sp = Inr (Some k)" "t \<in> set tagStrings" "parseTag_sp t = Inr None"
  shows "getRelevantTags_v1 tagStrings yr sp = Inl TypeError"
proof -
  have "None \<in> set (map (\<lambda>t. projr (parseTag_sp t)) tagStrings)"
    using assms(2,3) by (force simp: image_iff)
  then show ?thesis
    by (simp add: getRelevantTags_v1_def assms(1) mapE_parseTag_sp filterTags_v1_throws)
qed

text \<open>The first tag of a line in the two versions of index.js also has the counter 0.\<close>

lemma bootstrap_counter_zero_sp:
  assumes "getRelevantTags_sp tagData yr sp = Inr []"
  shows "\<exists>s. action_sp tagData yr sp = Inr s \<and> last (split CHR ''.'' s) = ''0''"
proof -
  obtain r where r: "parseServicePack sp = Inr r" using parseServicePack_returns by blast
  have "\<exists>xs. action_sp tagData yr sp = Inr (xs @ CHR ''.'' # ''0'')"
    by (simp add: action_sp_def assms getLatestTag_sp_def r getNewTag_sp_def formatTag_sp_def
        digitsOf_0)
  then obtain xs where "action_sp tagData yr sp = Inr (xs @ CHR ''.'' # ''0'')" by blast
  then show ?thesis by (simp add: last_split_append)
qed

lemma bootstrap_counter_zero_v1:
  assumes "getRelevantTags_v1 tagStrings yr sp = Inr []"
  shows "\<exists>s. action_v1 tagStrings yr sp = Inr s \<and> last (split CHR ''.'' s) = ''0''"
proof -
  obtain r where r: "parseServicePack sp = Inr r" using parseServicePack_returns by blast
  have "\<exists>xs. action_v1 tagStrings yr sp = Inr (xs @ CHR ''.'' # ''0'')"
    by (simp add: action_v1_def assms getLatestTag_v1_def r getNewTag_v1_def digitsOf_0)
  then obtain xs where "action_v1 tagStrings yr sp = Inr (xs @ CHR ''.'' # ''0'')" by blast
  then show ?thesis by (simp add: last_split_append)
qed

section \<open>The claims of the specification\<close>

subsection \<open>C1: the increment on a release line that has tags\<close>

text \<open>
  C1 says that the action, on tags whose release line is not empty, returns the tag with
  the largest counter of the line plus 1 and the same year and update, the latest tag
  being the last of the sorted line.  The update grammar never sees a line that is not
  empty: every tag name is rejected by \<open>parseTag\<close>, so with the tags
  \<open>v2024.up1.0\<close> and \<open>v2024.up1.1\<close> on the line of 2024 and \<open>up1\<close> the
  action returns the counter 0 again, where the claim gives 2.  The later version of
  index.js, which splits the tag name, returns the counter 2 on the same tags of its
  grammar (in general: lemma \<open>action_sp_increments\<close>); the earlier version takes the
  first tag instead of the last and returns 1.
\<close>

theorem action_restarts_nonempty_line:
  "getRelevantTags [''v2024.up1.0'', ''v2024.up1.1''] (Number 2024) ''up1'' = Inr []
   \<and> action [''v2024.up1.0'', ''v2024.up1.1''] (Number 2024) ''up1'' = Inr ''v2024.up1.0.0''
   \<and> action_sp [''v2024.sp1.0'', ''v2024.sp1.1''] (Number 2024) ''sp1'' = Inr ''v2024.sp1.2''
   \<and> action_v1 [''v2024.sp1.0'', ''v2024.sp1.1''] (Number 2024) ''sp1'' = Inr ''v2024.1.1''"
  by code_simp

subsection \<open>C2: the first tag of a release line\<close>

text \<open>
  C2: for every year and every update text, when the filtered release line is empty,
  \<open>getLatestTag\<close> builds the latest tag from that year, the parsed update (or major 0
  and minor 0 when the update text is invalid) and the counter -1, and the action
  returns a tag of that year and update whose last segment, the counter, is 0.
\<close>

theorem bootstrap_counter_zero:
  assumes "getRelevantTags tagData yr u = Inr []"
  shows "(let key = (case parseUpdate u of
                       Inr (Some k) \<Rightarrow> k
                     | _ \<Rightarrow> \<lparr>maj = Number 0, min' = Number 0\<rparr>)
          in getLatestTag [] yr u = Inr \<lparr>year = yr, up = key, count = Number (- 1)\<rparr>
             \<and> action tagData yr u = Inr (formatTag \<lparr>year = yr, up = key, count = Number 0\<rparr>)
             \<and> action tagData yr u
                 = Inr (''v'' @ toString yr @ ''.up'' @ toString (maj key) @ ''.''
                        @ toString (min' key) @ ''.0''))
         \<and> (\<exists>s. action tagData yr u = Inr s \<and> last (split CHR ''.'' s) = ''0'')"
proof -
  obtain r where r: "parseUpdate u = Inr r" using parseUpdate_returns by blast
  define key where "key = (case r of None \<Rightarrow> \<lparr>maj = Number 0, min' = Number 0\<rparr> | Some k \<Rightarrow> k)"
  have k: "(case parseUpdate u of Inr (Some k) \<Rightarrow> k | _ \<Rightarrow> \<lparr>maj = Number 0, min' = Number 0\<rparr>) = key"
    by (cases r) (simp_all add: r key_def)
  have l: "getLatestTag [] yr u = Inr \<lparr>year = yr, up = key, count = Number (- 1)\<rparr>"
    by (simp add: getLatestTag_def r key_def)
  have f: "action tagData yr u = Inr (formatTag \<lparr>year = yr, up = key, count = Number 0\<rparr>)"
    by (simp add: action_def assms l getNewTag_def)
  have a: "action tagData yr u
      = Inr (''v'' @ toString yr @ ''.up'' @ toString (maj key) @ ''.'' @ toString (min' key) @ ''.0'')"
    by (simp add: f formatTag_def digitsOf_0)
  have "last (split CHR ''.'' ((''v'' @ toString yr @ ''.up'' @ toString (maj key) @ ''.''
            @ toString (min' key)) @ CHR ''.'' # ''0'')) = ''0''"
    by (subst last_split_append) simp
  then have z: "\<exists>s. action tagData yr u = Inr s \<and> last (split CHR ''.'' s) = ''0''"
    by (simp add: a)
  from l f a z show ?thesis unfolding k Let_def by blast
qed

theorem bootstrap_counter_zero_witness:
  "getRelevantTags [] (Number 2025) ''up3.2'' = Inr []
   \<and> getLatestTag [] (Number 2025) ''up3.2''
       = Inr \<lparr>year = Number 2025, up = \<lparr>maj = Number 3, min' = Number 2\<rparr>, count = Number (- 1)\<rparr>
   \<and> action [] (Number 2025) ''up3.2'' = Inr ''v2025.up3.2.0''"
proof -
  have h: "getRelevantTags [] (Number 2025) ''up3.2'' = Inr []"
    by code_simp
  have p: "parseUpdate ''up3.2'' = Inr (Some \<lparr>maj = Number 3, min' = Number 2\<rparr>)"
    by code_simp
  have d: "digitsOf 2025 = ''2025''" "digitsOf 3 = ''3''" "digitsOf 2 = ''2''"
    by code_simp+
  show ?thesis
    using bootstrap_counter_zero [OF h] h by (auto simp: p d Let_def)
qed

subsection \<open>C3: formatting and parsing again\<close>

text \<open>
  C3 says that a tag obtained from \<open>parseTag\<close> is obtained again from its formatted
  text, and that a syntactically valid tag text is formatted back to itself.  In the
  update grammar \<open>parseTag\<close> returns \<open>null\<close> on the valid tag text \<open>v2024.up1.0\<close>,
  so there is nothing to format.  \<open>parseTag\<close> of index.js parses the same tag of its
  grammar, and \<open>formatTag\<close> gives the text back (in general: lemma
  \<open>parseTag_sp_formatTag_sp\<close>).
\<close>

theorem parseTag_rejects_valid_tag:
  "parseTag ''v2024.up1.0'' = Inr None
   \<and> parseTag_sp ''v2024.sp1.0''
       = Inr (Some \<lparr>year = Number 2024, up = \<lparr>maj = Number 1, min' = Number 0\<rparr>,
                     count = Number 0\<rparr>)
   \<and> formatTag_sp \<lparr>year = Number 2024, up = \<lparr>maj = Number 1, min' = Number 0\<rparr>,
                    count = Number 0\<rparr> = ''v2024.sp1.0''"
  by code_simp

subsection \<open>C4: the example of the specification\<close>

text \<open>
  C4: the tags \<open>v2024.up1.0\<close>, \<open>v2024.up1.1\<close>, \<open>v2024.up2.0\<close> and \<open>garbage\<close>
  with the year 2024 and the update \<open>up1\<close> should give \<open>v2024.up1.2\<close>.  The action
  returns \<open>v2024.up1.0.0\<close>: all four names are rejected, the counter starts at 0, and
  \<open>formatTag\<close> of the update grammar always writes the minor.  The later version of
  index.js returns \<open>v2024.sp1.2\<close> on the same tags of its grammar.
\<close>

theorem action_example_up1:
  "action [''v2024.up1.0'', ''v2024.up1.1'', ''v2024.up2.0'', ''garbage''] (Number 2024) ''up1''
     = Inr ''v2024.up1.0.0''
   \<and> action_sp [''v2024.sp1.0'', ''v2024.sp1.1'', ''v2024.sp2.0'', ''garbage''] (Number 2024) ''sp1''
     = Inr ''v2024.sp1.2''"
  by code_simp

subsection \<open>C5: the comparator\<close>

text \<open>
  C5: on tags with integer fields, \<open>compareTags\<close> is a strict total order.  It is
  negative exactly when the first tag comes first by year, then update major, then update
  minor, then counter, positive exactly when the second does, and zero exactly when the
  four fields are equal; one of the three always holds; the order is antisymmetric and
  transitive.
\<close>

theorem compareTags_strict_total_order:
  assumes "numericTag a" "numericTag b" "numericTag c"
  shows "(js_lt (compareTags a b) (Number 0) = lexLess a b)
     \<and> (js_gt (compareTags a b) (Number 0) = lexLess b a)
     \<and> ((compareTags a b = Number 0)
          = (year a = year b \<and> maj (up a) = maj (up b) \<and> min' (up a) = min' (up b)
             \<and> count a = count b))
     \<and> (js_lt (compareTags a b) (Number 0) \<or> compareTags a b = Number 0
          \<or> js_gt (compareTags a b) (Number 0))
     \<and> (js_lt (compareTags a b) (Number 0) = js_gt (compareTags b a) (Number 0))
     \<and> \<not> (js_lt (compareTags a b) (Number 0) \<and> js_lt (compareTags b a) (Number 0))
     \<and> (js_lt (compareTags a b) (Number 0) \<and> js_lt (compareTags b c) (Number 0)
          \<longrightarrow> js_lt (compareTags a c) (Number 0))"
  using assms lexLess_total [of a b] lexLess_asym [of a b] lexLess_trans [of a b c]
  by (simp add: compareTags_less compareTags_greater compareTags_zero)

theorem compareTags_strict_total_order_witness:
  "numericTag \<lparr>year = Number 2024, up = \<lparr>maj = Number 1, min' = Number 0\<rparr>, count = Number 0\<rparr>
   \<and> numericTag \<lparr>year = Number 2024, up = \<lparr>maj = Number 1, min' = Number 0\<rparr>, count = Number 1\<rparr>
   \<and> numericTag \<lparr>year = Number 2024, up = \<lparr>maj = Number 2, min' = Number 0\<rparr>, count = Number 0\<rparr>
   \<and> js_lt (compareTags
        \<lparr>year = Number 2024, up = \<lparr>maj = Number 1, min' = Number 0\<rparr>, count = Number 0\<rparr>
        \<lparr>year = Number 2024, up = \<lparr>maj = Number 1, min' = Number 0\<rparr>, count = Number 1\<rparr>)
        (Number 0)
   \<and> js_lt (compareTags
        \<lparr>year = Number 2024, up = \<lparr>maj = Number 1, min' = Number 0\<rparr>, count = Number 1\<rparr>
        \<lparr>year = Number 2024, up = \<lparr>maj = Number 2, min' = Number 0\<rparr>, count = Number 0\<rparr>)
        (Number 0)
   \<and> js_lt (compareTags
        \<lparr>year = Number 2024, up = \<lparr>maj = Number 1, min' = Number 0\<rparr>, count = Number 0\<rparr>
        \<lparr>year = Number 2024, up = \<lparr>maj = Number 2, min' = Number 0\<rparr>, count = Number 0\<rparr>)
        (Number 0)
   \<and> js_gt (compareTags
        \<lparr>year = Number 2024, up = \<lparr>maj = Number 1, min' = Number 0\<rparr>, count = Number 1\<rparr>
        \<lparr>year = Number 2024, up = \<lparr>maj = Number 1, min' = Number 0\<rparr>, count = Number 0\<rparr>)
        (Number 0)"
proof -
  define a where "a = \<lparr>year = Number 2024, up = \<lparr>maj = Number 1, min' = Number 0\<rparr>, count = Number 0\<rparr>"
  define b where "b = \<lparr>year = Number 2024, up = \<lparr>maj = Number 1, min' = Number 0\<rparr>, count = Number 1\<rparr>"
  define c where "c = \<lparr>year = Number 2024, up = \<lparr>maj = Number 2, min' = Number 0\<rparr>, count = Number 0\<rparr>"
  have h: "numericTag a" "numericTag b" "numericTag c"
    by (simp_all add: numericTag_def a_def b_def c_def)
  have l: "lexLess a b" "lexLess b c"
    by (simp_all add: lexLess_def a_def b_def c_def)
  have ab: "js_lt (compareTags a b) (Number 0)" and ba: "js_gt (compareTags b a) (Number 0)"
    using compareTags_strict_total_order [OF h] l(1) by blast+
  have bc: "js_lt (compareTags b c) (Number 0)"
    using compareTags_strict_total_order [OF h(2) h(3) h(1)] l(2) by blast
  have ac: "js_lt (compareTags a c) (Number 0)"
    using compareTags_strict_total_order [OF h] ab bc by blast
  show ?thesis
    using h ab bc ac ba unfolding a_def b_def c_def by blast
qed

subsection \<open>C6: tag names that do not parse\<close>

text \<open>
  C6 says that tag names which do not parse are dropped: the action returns what it
  returns without them, and never fails because of them.  The earlier version of
  index.js filters the array that still holds the \<open>null\<close> entries, so one invalid name
  makes \<open>getRelevantTags\<close> throw: with \<open>v2024.sp1.0\<close> and \<open>garbage\<close> the action
  fails, and without \<open>garbage\<close> it returns a tag (in general: lemma
  \<open>getRelevantTags_v1_throws\<close>).  The later version and the update grammar filter
  \<open>validTags\<close> (lemmas \<open>action_sp_ignores_invalid\<close> and
  \<open>action_ignores_invalid\<close>).
\<close>

theorem action_v1_fails_on_invalid_tag:
  "parseTag_sp ''garbage'' = Inr None
   \<and> getRelevantTags_v1 [''v2024.sp1.0'', ''garbage''] (Number 2024) ''sp1'' = Inl TypeError
   \<and> action_v1 [''v2024.sp1.0'', ''garbage''] (Number 2024) ''sp1'' = Inl TypeError
   \<and> action_v1 [''v2024.sp1.0''] (Number 2024) ''sp1'' = Inr ''v2024.1.1''"
  by code_simp

subsection \<open>C7: the year and the counter of a tag\<close>

text \<open>
  C7 says that \<open>parseTag\<close> rejects a tag whose year is not a number or lies outside
  2000 to 3000, and a tag whose counter is not a number or is negative.  The two range
  checks of \<open>parseTag\<close> compare with \<open><\<close> and \<open>>\<close>, which are false on \<open>NaN\<close>:
  \<open>parseTag\<close> of index.js accepts \<open>vabcd.sp1.0\<close> with the year \<open>NaN\<close> and
  \<open>v2024.sp1.x\<close> with the counter \<open>NaN\<close>.  Numbers outside the ranges are rejected
  (lemma \<open>parseTag_sp_range\<close>).
\<close>

theorem parseTag_sp_accepts_NaN:
  "parseTag_sp ''vabcd.sp1.0''
     = Inr (Some \<lparr>year = NaN, up = \<lparr>maj = Number 1, min' = Number 0\<rparr>, count = Number 0\<rparr>)
   \<and> parseTag_sp ''v2024.sp1.x''
     = Inr (Some \<lparr>year = Number 2024, up = \<lparr>maj = Number 1, min' = Number 0\<rparr>, count = NaN\<rparr>)"
  by code_simp

subsection \<open>C8: an update text that does not parse\<close>

text \<open>
  C8: for every list of tag names and every year, when the configured update text does
  not parse, \<open>getRelevantTags\<close> returns the empty list and no error, and the action goes
  on with the empty line: it returns the first tag of the update 0.0.  The same holds in
  both versions of index.js.
\<close>

theorem invalid_update_gives_empty_line:
  "(parseUpdate u = Inr None \<longrightarrow>
      getRelevantTags tagData yr u = Inr []
      \<and> action tagData yr u = Inr (''v'' @ toString yr @ ''.up0.0.0''))
   \<and> (parseServicePack sp = Inr None \<longrightarrow>
      getRelevantTags_sp tagData yr sp = Inr []
      \<and> action_sp tagData yr sp = Inr (''v'' @ toString yr @ ''.sp0.0'')
      \<and> getRelevantTags_v1 tagData yr sp = Inr []
      \<and> action_v1 tagData yr sp = Inr (''v'' @ toString yr @ ''.0.0''))"
  by (simp add: getRelevantTags_def action_def getLatestTag_def getNewTag_def formatTag_def
      getRelevantTags_sp_def action_sp_def getLatestTag_sp_def getNewTag_sp_def formatTag_sp_def
      getRelevantTags_v1_def action_v1_def getLatestTag_v1_def getNewTag_v1_def digitsOf_0)

theorem invalid_update_gives_empty_line_witness:
  "parseUpdate ''1.2'' = Inr None
   \<and> getRelevantTags [''v2024.up1.0''] (Number 2024) ''1.2'' = Inr []
   \<and> action [''v2024.up1.0''] (Number 2024) ''1.2'' = Inr ''v2024.up0.0.0''
   \<and> parseServicePack ''1.2'' = Inr None
   \<and> getRelevantTags_v1 [''v2024.up1.0''] (Number 2024) ''1.2'' = Inr []
   \<and> action_sp [''v2024.up1.0''] (Number 2024) ''1.2'' = Inr ''v2024.sp0.0''"
proof -
  have h: "parseUpdate ''1.2'' = Inr None" "parseServicePack ''1.2'' = Inr None"
    by code_simp+
  have d: "digitsOf 2024 = ''2024''"
    by code_simp
  show ?thesis
    using invalid_update_gives_empty_line
      [of "''1.2''" "[''v2024.up1.0'']" "Number 2024" "''1.2''"] h
    by (simp add: d)
qed

subsection \<open>C9: no exception leaves the parsers\<close>

text \<open>
  C9 says that \<open>parseUpdate\<close> and \<open>parseTag\<close> never throw on a string, because every
  malformed input (bad numeric text, wrong number of segments, wrong prefix) becomes the
  invalid result.  They never throw, but \<open>parseUpdate\<close> checks the prefix only: the
  text \<open>upx\<close> is not invalid, it gives an update with the major \<open>NaN\<close>.
\<close>

theorem parseUpdate_bad_number_counterexample:
  "parseUpdate ''upx'' = Inr (Some \<lparr>maj = NaN, min' = Number 0\<rparr>)
   \<and> parseUpdate ''upx'' \<noteq> Inr None"
  by code_simp

text \<open>
  C9, as the code has it: for every string, \<open>parseUpdate\<close> and \<open>parseTag\<close> return
  without an exception; \<open>parseUpdate\<close> returns the invalid result exactly when the
  text does not start with the marker \<open>up\<close>; an exception thrown inside \<open>parseTag\<close>
  is caught and becomes the invalid result.
\<close>

theorem parsers_never_throw:
  "(\<exists>r. parseUpdate s = Inr r)
   \<and> ((parseUpdate s = Inr None) = (\<not> startsWith s ''up''))
   \<and> (\<exists>r. parseTag t = Inr r)
   \<and> (parseTag_try t = Inl e \<longrightarrow> parseTag t = Inr None)"
  using parseUpdate_returns [of s]
  by (simp add: parseUpdate_invalid_iff parseTag_def split: sum.splits)

theorem parsers_never_throw_witness:
  "parseUpdate ''upx'' \<noteq> Inl TypeError \<and> startsWith ''upx'' ''up''
   \<and> parseUpdate ''upx'' \<noteq> Inr None
   \<and> parseTag_try ''v2024.up1.0'' = Inl TypeError \<and> parseTag ''v2024.up1.0'' = Inr None"
proof -
  have h: "parseTag_try ''v2024.up1.0'' = Inl TypeError"
    by code_simp
  show ?thesis
    using parsers_never_throw [of "''upx''" "''v2024.up1.0''" TypeError] h
    by (auto simp: startsWith_def)
qed

subsection \<open>C10: segments after the second in an update text\<close>

text \<open>
  C10: for every text made of the marker and more than two segments separated by dots,
  \<open>parseUpdate\<close> does not return the invalid result: it returns the update of the
  first two segments, the same as for the text cut after the second segment, whatever
  follows.  The same holds for \<open>parseServicePack\<close> of index.js.
\<close>

theorem parseUpdate_ignores_extra_segments:
  assumes "CHR ''.'' \<notin> set a" "CHR ''.'' \<notin> set b"
  shows "parseUpdate (''up'' @ a @ ''.'' @ b @ ''.'' @ c) = parseUpdate (''up'' @ a @ ''.'' @ b)
     \<and> parseUpdate (''up'' @ a @ ''.'' @ b @ ''.'' @ c)
         = Inr (Some \<lparr>maj = parseInt a, min' = parseInt b\<rparr>)
     \<and> parseServicePack (''sp'' @ a @ ''.'' @ b @ ''.'' @ c)
         = parseServicePack (''sp'' @ a @ ''.'' @ b)
     \<and> parseServicePack (''sp'' @ a @ ''.'' @ b @ ''.'' @ c)
         = Inr (Some \<lparr>maj = parseInt a, min' = parseInt b\<rparr>)"
  using parseUpdate_segments(1) [OF assms, of c] parseUpdate_segments(2) [OF assms]
    parseServicePack_segments(1) [OF assms, of c] parseServicePack_segments(2) [OF assms]
  by simp

theorem parseUpdate_ignores_extra_segments_witness:
  "CHR ''.'' \<notin> set ''1'' \<and> CHR ''.'' \<notin> set ''2''
   \<and> parseUpdate ''up1.2.3'' = parseUpdate ''up1.2''
   \<and> parseUpdate ''up1.2.3'' = Inr (Some \<lparr>maj = Number 1, min' = Number 2\<rparr>)
   \<and> parseServicePack ''sp1.2.3'' = Inr (Some \<lparr>maj = Number 1, min' = Number 2\<rparr>)"
proof -
  have h: "CHR ''.'' \<notin> set ''1''" "CHR ''.'' \<notin> set ''2''"
    by simp_all
  have p: "parseInt ''1'' = Number 1" "parseInt ''2'' = Number 2"
    by code_simp+
  show ?thesis
    using parseUpdate_ignores_extra_segments [OF h, of "''3''"] by (auto simp: p)
qed

end
